theory Spec2Isabelle
  imports Complex_Main "HOL-Library.Multiset"
begin

section \<open>Errors\<close>

text \<open>
  The Python exceptions the two modules can raise. \<open>None\<close> returned by a function
  that falls off its end is not an exception: it is modelled by an \<open>option\<close> inside
  the normal result.
\<close>

datatype error = KeyError | ValueError | AttributeError | RuntimeError | ZeroDivisionError

section \<open>Calendar dates\<close>

text \<open>
  A \<open>pd.Timestamp\<close> at day granularity. The operations are those \<open>hazel.py\<close> uses:
  \<open>replace(day=...)\<close>, \<open>+ pd.offsets.MonthBegin(1)\<close>, \<open>+ pd.DateOffset(months=k)\<close>
  and the day difference of two timestamps.
\<close>

record date =
  year :: int
  month :: int
  day :: int

definition is_leap :: "int \<Rightarrow> bool" where
  "is_leap y \<longleftrightarrow> y mod 4 = 0 \<and> (y mod 100 \<noteq> 0 \<or> y mod 400 = 0)"

definition days_in_month :: "int \<Rightarrow> int \<Rightarrow> int" where
  "days_in_month y m =
     (if m = 2 then (if is_leap y then 29 else 28)
      else if m = 4 \<or> m = 6 \<or> m = 9 \<or> m = 11 then 30 else 31)"

definition days_before_year :: "int \<Rightarrow> int" where
  "days_before_year y = (y - 1) * 365 + (y - 1) div 4 - (y - 1) div 100 + (y - 1) div 400"

definition days_before_month :: "int \<Rightarrow> int \<Rightarrow> int" where
  "days_before_month y m = sum_list (map (days_in_month y) [1..m - 1])"

definition toordinal :: "date \<Rightarrow> int" where
  "toordinal d = days_before_year (year d) + days_before_month (year d) (month d) + day d"

text \<open>\<open>ts.replace(day=d)\<close> raises \<open>ValueError\<close> when the month has no such day.\<close>

definition replace_day :: "date \<Rightarrow> int \<Rightarrow> error + date" where
  "replace_day ts d =
     (if 1 \<le> d \<and> d \<le> days_in_month (year ts) (month ts) then Inr (ts\<lparr>day := d\<rparr>)
      else Inl ValueError)"

text \<open>\<open>ts + pd.offsets.MonthBegin(1)\<close>: the first day of the following month.\<close>

definition month_begin :: "date \<Rightarrow> date" where
  "month_begin ts =
     (if month ts = 12 then \<lparr>year = year ts + 1, month = 1, day = 1\<rparr>
      else \<lparr>year = year ts, month = month ts + 1, day = 1\<rparr>)"

text \<open>
  \<open>ts + pd.DateOffset(months=k)\<close>: the month moves by \<open>k\<close>, the day is kept and
  clamped to the length of the target month.
\<close>

definition add_months :: "date \<Rightarrow> int \<Rightarrow> date" where
  "add_months ts k =
     (let t = year ts * 12 + (month ts - 1) + k;
          y = t div 12;
          m = t mod 12 + 1
      in \<lparr>year = y, month = m, day = min (day ts) (days_in_month y m)\<rparr>)"

text \<open>
  \<open>pd.date_range(start=s, periods=n, freq=pd.DateOffset(months=k))\<close>: \<open>n\<close> dates, the
  first one \<open>s\<close>, each next one the offset applied to the one before.
\<close>

fun date_range :: "date \<Rightarrow> nat \<Rightarrow> int \<Rightarrow> date list" where
  "date_range s 0 k = []"
| "date_range s (Suc n) k = s # date_range (add_months s k) n k"

section \<open>hazel.py: the frequency table and the schedule\<close>

definition frequency_dict :: "string \<rightharpoonup> int" where
  "frequency_dict =
     [''monthly'' \<mapsto> 1, ''quarterly'' \<mapsto> 4, ''semi-annually'' \<mapsto> 5, ''annually'' \<mapsto> 12]"

text \<open>
  The data frame \<open>generate_schedule\<close> returns: column \<open>date\<close> has the start date and then
  the payment dates; column \<open>days_in_period\<close> is \<open>date.shift(-1) - date\<close> in days. Its
  last entry is NaN (the last row has no successor) and is never read by
  \<open>calculate_payment\<close>, so the column is kept as its defined entries, one per payment.
\<close>

record schedule =
  dates :: "date list"
  days_in_period :: "int list"

fun day_diffs :: "date list \<Rightarrow> int list" where
  "day_diffs (a # b # ds) = (toordinal b - toordinal a) # day_diffs (b # ds)"
| "day_diffs ds = []"

text \<open>
  The first part of \<open>generate_schedule\<close>. The attribute \<open>self.first_payment_date\<close> is
  assigned in the two branches only; with \<open>start_date.day = payment_date\<close> neither runs
  (the source has the comment \<open># else: already on the correct day\<close> there) and the read
  of the attribute in the call of \<open>pd.date_range\<close> raises \<open>AttributeError\<close>.
\<close>

definition first_payment_date :: "date \<Rightarrow> int \<Rightarrow> error + date" where
  "first_payment_date start_date payment_date =
     (if day start_date > payment_date then
        replace_day (month_begin start_date) payment_date
      else if day start_date < payment_date then
        (case replace_day start_date payment_date of
           Inr d \<Rightarrow> Inr d
         | Inl e \<Rightarrow> replace_day (month_begin start_date) payment_date)
      else Inl AttributeError)"

definition generate_schedule :: "date \<Rightarrow> int \<Rightarrow> int \<Rightarrow> nat \<Rightarrow> error + schedule" where
  "generate_schedule start_date payment_date frequency payments =
     (case first_payment_date start_date payment_date of
        Inl e \<Rightarrow> Inl e
      | Inr fpd \<Rightarrow>
          (let payment_dates = date_range fpd payments frequency;
               ds = start_date # payment_dates
           in Inr \<lparr>dates = ds, days_in_period = day_diffs ds\<rparr>))"

text \<open>
  The part of \<open>loanSchedule.__init__\<close> that fixes the payment day: the start date's own
  day when no \<open>payment_date\<close> is given, and \<open>min(28, payment_date)\<close> otherwise.
\<close>

definition init_payment_date :: "date \<Rightarrow> int option \<Rightarrow> int" where
  "init_payment_date start_date payment_date =
     (case payment_date of None \<Rightarrow> day start_date | Some p \<Rightarrow> min 28 p)"

section \<open>hazel.py: the solver\<close>

text \<open>
  Python floats are modelled as exact reals in this module: rounding and overflow are
  outside the model. \<open>fsolve\<close> runs \<open>for i in range(max_iter)\<close> with its early
  \<open>return x_new\<close> and its \<open>raise ValueError("fail")\<close>; after the loop the function body
  ends, so the call returns \<open>None\<close>: the result \<open>Inr None\<close>.
\<close>

fun fsolve_loop :: "(real \<Rightarrow> real) \<Rightarrow> real \<Rightarrow> nat \<Rightarrow> real \<Rightarrow> error + real option" where
  "fsolve_loop func xtol 0 x = Inr None"
| "fsolve_loop func xtol (Suc n) x =
     (let f_val = func x;
          h = 1 / 100000;
          f_prime = (func (x + h) - func x) / h
      in if f_prime = 0 then Inl ValueError
         else (let x_new = x - f_val / f_prime
               in if \<bar>x_new - x\<bar> < xtol then Inr (Some x_new)
                  else fsolve_loop func xtol n x_new))"

definition fsolve :: "(real \<Rightarrow> real) \<Rightarrow> real \<Rightarrow> real \<Rightarrow> nat \<Rightarrow> error + real option" where
  "fsolve func x0 xtol max_iter = fsolve_loop func xtol max_iter x0"

section \<open>hazel.py: the amortization walk\<close>

text \<open>The attributes of a \<open>loanSchedule\<close> object that \<open>calculate_payment\<close> reads.\<close>

record loan =
  amount :: real
  payments :: nat
  residual :: real
  start_fee :: real
  end_fee :: real
  frequency :: int
  rate :: real
  start_date :: date
  payment_date :: int
  payment_schedule :: schedule

text \<open>The six lists \<open>calculate_payment\<close> rebuilds on every call.\<close>

record ledger =
  interest_payments :: "real list"
  principal_payments :: "real list"
  fees_outstanding :: "real list"
  total_payments :: "real list"
  opening_balance :: "real list"
  closing_balance :: "real list"

text \<open>
  One pass of the loop body for the row index \<open>i\<close> (the source's \<open>date\<close>). The three
  payment branches are tested in the source's order: \<open>date == 1\<close> before
  \<open>date == len(self.payment_schedule) - 1\<close>. Each branch appends to the opening
  balances first and reads \<open>self.opening_balance[date]\<close> afterwards.
\<close>

definition accrued :: "loan \<Rightarrow> real list \<Rightarrow> nat \<Rightarrow> real" where
  "accrued self ob i =
     ob ! i * ((1 + rate self) powr
                 (real_of_int (days_in_period (payment_schedule self) ! (i - 1)) / 365.25) - 1)"

definition period_step :: "loan \<Rightarrow> real \<Rightarrow> nat \<Rightarrow> ledger \<Rightarrow> ledger" where
  "period_step self payment i L =
     (if i = 0 then L
      else if i = 1 then
        (let ob = opening_balance L @ [closing_balance L ! (i - 1)];
             interest = accrued self ob i;
             principal = payment - interest
         in \<lparr>interest_payments = interest_payments L @ [interest],
             principal_payments = principal_payments L @ [principal],
             fees_outstanding = fees_outstanding L @ [fees_outstanding L ! (i - 1) - start_fee self],
             total_payments = total_payments L @ [payment + start_fee self],
             opening_balance = ob,
             closing_balance = closing_balance L @ [ob ! i - principal]\<rparr>)
      else if i = length (dates (payment_schedule self)) - 1 then
        (let ob = opening_balance L @ [closing_balance L ! (i - 1)];
             interest = accrued self ob i;
             principal = payment - interest
         in \<lparr>interest_payments = interest_payments L @ [interest],
             principal_payments = principal_payments L @ [principal],
             fees_outstanding = fees_outstanding L @ [fees_outstanding L ! (i - 1) - end_fee self],
             total_payments = total_payments L @ [payment + end_fee self],
             opening_balance = ob,
             closing_balance = closing_balance L @ [ob ! i - principal]\<rparr>)
      else
        (let ob = opening_balance L @ [closing_balance L ! (i - 1)];
             interest = accrued self ob i;
             principal = payment - interest
         in \<lparr>interest_payments = interest_payments L @ [interest],
             principal_payments = principal_payments L @ [principal],
             fees_outstanding = fees_outstanding L @ [fees_outstanding L ! (i - 1)],
             total_payments = total_payments L @ [payment],
             opening_balance = ob,
             closing_balance = closing_balance L @ [ob ! i - principal]\<rparr>))"

definition initial_ledger :: "loan \<Rightarrow> ledger" where
  "initial_ledger self =
     \<lparr>interest_payments = [0], principal_payments = [0],
      fees_outstanding = [start_fee self + end_fee self], total_payments = [0],
      opening_balance = [0], closing_balance = [amount self]\<rparr>"

text \<open>The ledger after the rows \<open>0, ..., k - 1\<close> of the schedule have been walked.\<close>

definition walk :: "loan \<Rightarrow> real \<Rightarrow> nat \<Rightarrow> ledger" where
  "walk self payment k = fold (period_step self payment) [0..<k] (initial_ledger self)"

text \<open>
  \<open>calculate_payment\<close> returns the last closing balance less the residual and leaves the
  ledger in the object: the pair of both.
\<close>

definition calculate_payment :: "loan \<Rightarrow> real \<Rightarrow> real \<times> ledger" where
  "calculate_payment self payment =
     (let n = length (dates (payment_schedule self));
          L = walk self payment n
      in (closing_balance L ! (n - 1) - residual self, L))"

text \<open>
  \<open>loanSchedule.__init__\<close> up to the solved payment (the rounded output data frame is
  not modelled). It reads the frequency table, fixes the payment day, generates the
  schedule and calls \<open>fsolve\<close> on \<open>calculate_payment\<close> from \<open>amount / payments\<close>; that
  division raises for \<open>payments = 0\<close>. Nothing else is checked.
\<close>

definition loanSchedule_init ::
  "real \<Rightarrow> real \<Rightarrow> date \<Rightarrow> nat \<Rightarrow> real \<Rightarrow> int option \<Rightarrow> string \<Rightarrow> real \<Rightarrow> real
     \<Rightarrow> error + loan \<times> real option" where
  "loanSchedule_init amt r sd n res pd freq sfee efee =
     (case frequency_dict freq of
        None \<Rightarrow> Inl KeyError
      | Some f \<Rightarrow>
          (let p = init_payment_date sd pd
           in case generate_schedule sd p f n of
                Inl e \<Rightarrow> Inl e
              | Inr sched \<Rightarrow>
                  (let self = \<lparr>amount = amt, payments = n, residual = res, start_fee = sfee,
                                end_fee = efee, frequency = f, rate = r, start_date = sd,
                                payment_date = p, payment_schedule = sched\<rparr>
                   in if n = 0 then Inl ZeroDivisionError
                      else (case fsolve (\<lambda>x. fst (calculate_payment self x))
                                   (amt / real n) (1 / 100000) 100 of
                              Inl e \<Rightarrow> Inl e
                            | Inr mp \<Rightarrow> Inr (self, mp)))))"

section \<open>eirmodelling.py: floating-point values\<close>

text \<open>
  \<open>xirr\<close> puts \<open>np.inf\<close> into its own arithmetic, so this module's floats are modelled
  with the non-finite values written out: a finite value is a real, there is one zero,
  and infinities and NaN combine as IEEE 754 arithmetic combines them. The operations
  of this section are exact on finite values (no rounding, no overflow). The rounding
  of the sums, which is what makes the order of the summands matter in the code, is
  written out in the section on the rounding of sums below.
\<close>

datatype fl = Fin real | PInf | NInf | NaN

text \<open>The infinity of a given sign; NaN for sign zero.\<close>

definition inf_of_sign :: "real \<Rightarrow> fl" where
  "inf_of_sign s = (if 0 < s then PInf else if s < 0 then NInf else NaN)"

fun fl_sgn :: "fl \<Rightarrow> real" where
  "fl_sgn (Fin x) = sgn x"
| "fl_sgn PInf = 1"
| "fl_sgn NInf = - 1"
| "fl_sgn NaN = 0"

fun fl_neg :: "fl \<Rightarrow> fl" where
  "fl_neg (Fin x) = Fin (- x)"
| "fl_neg PInf = NInf"
| "fl_neg NInf = PInf"
| "fl_neg NaN = NaN"

fun fl_add :: "fl \<Rightarrow> fl \<Rightarrow> fl" where
  "fl_add (Fin x) (Fin y) = Fin (x + y)"
| "fl_add NaN b = NaN"
| "fl_add a NaN = NaN"
| "fl_add PInf NInf = NaN"
| "fl_add NInf PInf = NaN"
| "fl_add PInf b = PInf"
| "fl_add a PInf = PInf"
| "fl_add NInf b = NInf"
| "fl_add a NInf = NInf"

definition fl_sub :: "fl \<Rightarrow> fl \<Rightarrow> fl" where
  "fl_sub a b = fl_add a (fl_neg b)"

fun fl_mul :: "fl \<Rightarrow> fl \<Rightarrow> fl" where
  "fl_mul (Fin x) (Fin y) = Fin (x * y)"
| "fl_mul NaN b = NaN"
| "fl_mul a NaN = NaN"
| "fl_mul a b = inf_of_sign (fl_sgn a * fl_sgn b)"

text \<open>
  Division as numpy divides arrays: a finite value over zero is an infinity (NaN for
  \<open>0 / 0\<close>). The divisions between Python floats in \<open>xirr\<close> would raise on a zero
  divisor instead; their divisors are \<open>h\<close>, which is never zero, and \<open>df_dr\<close>, which
  is compared with zero first.
\<close>

fun fl_div :: "fl \<Rightarrow> fl \<Rightarrow> fl" where
  "fl_div (Fin x) (Fin y) = (if y = 0 then inf_of_sign x else Fin (x / y))"
| "fl_div NaN b = NaN"
| "fl_div a NaN = NaN"
| "fl_div (Fin x) b = Fin 0"
| "fl_div a (Fin y) = inf_of_sign (fl_sgn a * (if y < 0 then - 1 else 1))"
| "fl_div a b = NaN"

fun fl_abs :: "fl \<Rightarrow> fl" where
  "fl_abs (Fin x) = Fin \<bar>x\<bar>"
| "fl_abs NaN = NaN"
| "fl_abs a = PInf"

text \<open>Comparisons: every comparison with NaN is false.\<close>

fun fl_lt :: "fl \<Rightarrow> fl \<Rightarrow> bool" where
  "fl_lt (Fin x) (Fin y) \<longleftrightarrow> x < y"
| "fl_lt NaN b \<longleftrightarrow> False"
| "fl_lt a NaN \<longleftrightarrow> False"
| "fl_lt a NInf \<longleftrightarrow> False"
| "fl_lt PInf b \<longleftrightarrow> False"
| "fl_lt a b \<longleftrightarrow> True"

fun fl_eq :: "fl \<Rightarrow> fl \<Rightarrow> bool" where
  "fl_eq NaN b \<longleftrightarrow> False"
| "fl_eq a NaN \<longleftrightarrow> False"
| "fl_eq a b \<longleftrightarrow> a = b"

definition fl_le :: "fl \<Rightarrow> fl \<Rightarrow> bool" where
  "fl_le a b \<longleftrightarrow> fl_lt a b \<or> fl_eq a b"

text \<open>
  \<open>base ** e\<close> for a float base and a finite exponent, as numpy's \<open>power\<close> (C's
  \<open>pow\<close>) computes it: anything to the power 0 is 1, also NaN; a negative base has a
  value for an integer exponent only.
\<close>

definition is_int :: "real \<Rightarrow> bool" where
  "is_int e \<longleftrightarrow> e = real_of_int \<lfloor>e\<rfloor>"

fun fl_pow :: "fl \<Rightarrow> real \<Rightarrow> fl" where
  "fl_pow (Fin x) e =
     (if e = 0 then Fin 1
      else if 0 < x then Fin (x powr e)
      else if x = 0 then (if 0 < e then Fin 0 else PInf)
      else if is_int e then Fin (x powi \<lfloor>e\<rfloor>)
      else NaN)"
| "fl_pow PInf e = (if e = 0 then Fin 1 else if 0 < e then PInf else Fin 0)"
| "fl_pow NInf e =
     (if e = 0 then Fin 1
      else if 0 < e then (if is_int e \<and> odd \<lfloor>e\<rfloor> then NInf else PInf)
      else Fin 0)"
| "fl_pow NaN e = (if e = 0 then Fin 1 else NaN)"

text \<open>The sum of an array; the sum of no element is 0.\<close>

definition fl_sum :: "fl list \<Rightarrow> fl" where
  "fl_sum xs = fold fl_add xs (Fin 0)"

section \<open>eirmodelling.py: discounting\<close>

text \<open>
  A cash-flow series is a \<open>pd.Series\<close> of amounts indexed by timestamps; an entry is
  the pair of the timestamp's day number and the amount, in the order of the series.
  \<open>_ensure_series_index_datetime\<close> returns the series sorted by its index
  (\<open>sort_index\<close>); entries of one date may come out in any order there, and here they
  keep their order.
\<close>

type_synonym cashflows = "(int \<times> real) list"

definition ensure_series_index_datetime :: "cashflows \<Rightarrow> cashflows" where
  "ensure_series_index_datetime series = sort_key fst series"

text \<open>
  The discounted value of one entry: \<open>amount / (1.0 + rate) ** (days / 365.0)\<close> with
  \<open>days\<close> the day gap to the base date.
\<close>

definition discounted :: "fl \<Rightarrow> int \<Rightarrow> int \<times> real \<Rightarrow> fl" where
  "discounted r base e =
     fl_div (Fin (snd e)) (fl_pow (fl_add (Fin 1) r) (real_of_int (fst e - base) / 365))"

definition compute_pv_of_cashflows :: "cashflows \<Rightarrow> fl \<Rightarrow> int \<Rightarrow> fl" where
  "compute_pv_of_cashflows cfs discount_rate base_date =
     (if cfs = [] then Fin 0
      else (let series = ensure_series_index_datetime cfs;
                remaining = filter (\<lambda>e. base_date \<le> fst e) series
            in if remaining = [] then Fin 0
               else fl_sum (map (discounted discount_rate base_date) remaining)))"

section \<open>eirmodelling.py: the rate solver\<close>

text \<open>The inner function \<open>npv\<close> of \<open>xirr\<close>, over the sorted series and its base date.\<close>

definition npv :: "cashflows \<Rightarrow> int \<Rightarrow> fl \<Rightarrow> fl" where
  "npv series base r =
     (if fl_le r (Fin (- 0.9999999999)) then PInf
      else fl_sum (map (discounted r base) series))"

text \<open>
  The bracket search: \<open>while f_low * f_high > 0 and expansions < 50\<close>, doubling
  \<open>upper\<close>, with the \<open>break\<close> once \<open>upper > 1e6\<close>. It returns the last \<open>upper\<close>
  and \<open>f_high\<close>.
\<close>

function expand :: "(fl \<Rightarrow> fl) \<Rightarrow> fl \<Rightarrow> fl \<Rightarrow> fl \<Rightarrow> nat \<Rightarrow> fl \<times> fl" where
  "expand f f_low upper f_high expansions =
     (if fl_lt (Fin 0) (fl_mul f_low f_high) \<and> expansions < 50 then
        (let upper' = fl_mul upper (Fin 2);
             f_high' = f upper'
         in if fl_lt (Fin 1000000) upper' then (upper', f_high')
            else expand f f_low upper' f_high' (expansions + 1))
      else (upper, f_high))"
  by pat_completeness auto
termination
  by (relation "measure (\<lambda>(f, f_low, upper, f_high, expansions). 50 - expansions)") auto

declare expand.simps [simp del]

text \<open>
  The Newton fallback: \<open>for i in range(max_iter)\<close> with its \<open>break\<close> on a zero
  derivative estimate and its early return; after the loop, and after the \<open>break\<close>,
  comes \<open>raise RuntimeError\<close>.
\<close>

fun newton :: "(fl \<Rightarrow> fl) \<Rightarrow> real \<Rightarrow> nat \<Rightarrow> fl \<Rightarrow> error + fl" where
  "newton f tol 0 r = Inl RuntimeError"
| "newton f tol (Suc n) r =
     (let fv = f r;
          h = (if fl_lt (fl_abs r) (Fin 1) then Fin (1 / 1000000)
               else fl_mul (fl_abs r) (Fin (1 / 1000000)));
          f1 = f (fl_add r h);
          df_dr = fl_div (fl_sub f1 fv) h
      in if fl_eq df_dr (Fin 0) then Inl RuntimeError
         else (let new_rate = fl_sub r (fl_div fv df_dr)
               in if fl_lt (fl_abs (fl_sub new_rate r)) (Fin tol) then Inr new_rate
                  else newton f tol n new_rate))"

text \<open>
  The bisection: \<open>for _ in range(max_iter)\<close> with the early return of a midpoint
  whose value is below \<open>tol\<close>; after the loop, the midpoint of the last bracket.
\<close>

fun bisect :: "(fl \<Rightarrow> fl) \<Rightarrow> real \<Rightarrow> nat \<Rightarrow> fl \<Rightarrow> fl \<Rightarrow> fl \<Rightarrow> fl \<Rightarrow> fl" where
  "bisect f tol 0 a b fa fb = fl_mul (Fin (1 / 2)) (fl_add a b)"
| "bisect f tol (Suc n) a b fa fb =
     (let m = fl_mul (Fin (1 / 2)) (fl_add a b);
          fm = f m
      in if fl_lt (fl_abs fm) (Fin tol) then m
         else if fl_le (fl_mul fa fm) (Fin 0) then bisect f tol n a m fa fm
         else bisect f tol n m b fm fb)"

definition xirr :: "cashflows \<Rightarrow> real \<Rightarrow> real \<Rightarrow> nat \<Rightarrow> error + fl" where
  "xirr cfs guess tol max_iter =
     (let series = ensure_series_index_datetime cfs
      in if series = [] then Inl ValueError
         else (let vals = map snd series
               in if \<not> (list_ex (\<lambda>v. 0 < v) vals \<and> list_ex (\<lambda>v. v < 0) vals)
                  then Inl ValueError
                  else (let base = fst (hd series);
                            lower = Fin (- 0.9999);
                            f_low = npv series base lower;
                            (upper, f_high) =
                               expand (npv series base) f_low (Fin 10)
                                 (npv series base (Fin 10)) 0
                        in if fl_lt (Fin 0) (fl_mul f_low f_high)
                           then newton (npv series base) tol max_iter (Fin guess)
                           else Inr (bisect (npv series base) tol max_iter
                                       lower upper f_low f_high))))"

text \<open>The call with the defaults \<open>guess=0.05, tol=1e-8, max_iter=200\<close>.\<close>

definition xirr_default :: "cashflows \<Rightarrow> error + fl" where
  "xirr_default cfs = xirr cfs 0.05 (1 / 10 ^ 8) 200"

section \<open>eirmodelling.py: the rounding of sums\<close>

text \<open>
  \<open>.sum()\<close> adds the elements of the array to an accumulator, from the first to the
  last (numpy does so for fewer than 8 elements; for more it adds in blocks, in an order
  that is fixed by the positions as well), and every partial sum is rounded to a float.
  The order of the array is the order \<open>sort_index\<close> leaves: entries of one date stay in
  the order of the input. The rounding is the parameter \<open>rnd\<close> of the following variants
  of \<open>fl_sum\<close>, \<open>compute_pv_of_cashflows\<close>, \<open>npv\<close> and \<open>xirr\<close>; with \<open>rnd = id\<close> they
  are the functions above (lemmas \<open>compute_pv_rounded_id\<close>, \<open>xirr_rounded_id\<close>). Only
  the sums are rounded: every other operation acts on one entry, or on one rate, at a
  time, the same way for every order of the series.
\<close>

fun fl_round :: "(real \<Rightarrow> real) \<Rightarrow> fl \<Rightarrow> fl" where
  "fl_round rnd (Fin x) = Fin (rnd x)"
| "fl_round rnd a = a"

definition fl_sum_rounded :: "(real \<Rightarrow> real) \<Rightarrow> fl list \<Rightarrow> fl" where
  "fl_sum_rounded rnd xs = fold (\<lambda>x acc. fl_round rnd (fl_add acc x)) xs (Fin 0)"

definition compute_pv_of_cashflows_rounded ::
  "(real \<Rightarrow> real) \<Rightarrow> cashflows \<Rightarrow> fl \<Rightarrow> int \<Rightarrow> fl" where
  "compute_pv_of_cashflows_rounded rnd cfs discount_rate base_date =
     (if cfs = [] then Fin 0
      else (let series = ensure_series_index_datetime cfs;
                remaining = filter (\<lambda>e. base_date \<le> fst e) series
            in if remaining = [] then Fin 0
               else fl_sum_rounded rnd (map (discounted discount_rate base_date) remaining)))"

definition npv_rounded :: "(real \<Rightarrow> real) \<Rightarrow> cashflows \<Rightarrow> int \<Rightarrow> fl \<Rightarrow> fl" where
  "npv_rounded rnd series base r =
     (if fl_le r (Fin (- 0.9999999999)) then PInf
      else fl_sum_rounded rnd (map (discounted r base) series))"

text \<open>
  The part of \<open>xirr\<close> after its two checks, for a given function \<open>npv\<close>: the bracket
  search, then the Newton fallback or the bisection.
\<close>

definition solve_rate :: "(fl \<Rightarrow> fl) \<Rightarrow> real \<Rightarrow> real \<Rightarrow> nat \<Rightarrow> error + fl" where
  "solve_rate f guess tol max_iter =
     (let lower = Fin (- 0.9999);
          f_low = f lower;
          (upper, f_high) = expand f f_low (Fin 10) (f (Fin 10)) 0
      in if fl_lt (Fin 0) (fl_mul f_low f_high)
         then newton f tol max_iter (Fin guess)
         else Inr (bisect f tol max_iter lower upper f_low f_high))"

definition xirr_rounded ::
  "(real \<Rightarrow> real) \<Rightarrow> cashflows \<Rightarrow> real \<Rightarrow> real \<Rightarrow> nat \<Rightarrow> error + fl" where
  "xirr_rounded rnd cfs guess tol max_iter =
     (let series = ensure_series_index_datetime cfs
      in if series = [] then Inl ValueError
         else (let vals = map snd series
               in if \<not> (list_ex (\<lambda>v. 0 < v) vals \<and> list_ex (\<lambda>v. v < 0) vals)
                  then Inl ValueError
                  else solve_rate (npv_rounded rnd series (fst (hd series)))
                         guess tol max_iter))"



section \<open>The rate solver as the specification words it\<close>

text \<open>
  A second description of what \<open>xirr\<close> computes, following the specification's text
  rather than the loops of the source: the bounds, the number of doublings of the upper
  bound, the sequence of brackets of the bisection and the sequence of Newton iterates
  are given in closed form. It is compared with \<open>xirr\<close> below.
\<close>

definition lower_bound :: fl where
  "lower_bound = Fin (- 0.9999)"

text \<open>The upper bound after \<open>k\<close> doublings of 10.\<close>

definition upper_bound :: "nat \<Rightarrow> fl" where
  "upper_bound k = Fin (10 * 2 ^ k)"

definition same_sign :: "fl \<Rightarrow> fl \<Rightarrow> bool" where
  "same_sign a b \<longleftrightarrow> fl_lt (Fin 0) (fl_mul a b)"

text \<open>The first index below \<open>n\<close> at which \<open>P\<close> holds.\<close>

definition first_index :: "(nat \<Rightarrow> bool) \<Rightarrow> nat \<Rightarrow> nat option" where
  "first_index P n = find P [0..<n]"

text \<open>
  The upper bound is doubled while both endpoint values share a sign, at most 50 times
  and not beyond the first bound that exceeds \<open>1e6\<close>.
\<close>

definition doublings :: "(fl \<Rightarrow> fl) \<Rightarrow> nat" where
  "doublings f =
     (case first_index (\<lambda>k. \<not> same_sign (f lower_bound) (f (upper_bound k))
                              \<or> fl_lt (Fin 1000000) (upper_bound k)) 50 of
        Some k \<Rightarrow> k
      | None \<Rightarrow> 50)"

text \<open>
  A bracket is its two ends and the value at the lower end. Narrowing keeps the half in
  which the sign changes.
\<close>

definition midpoint :: "fl \<times> fl \<times> fl \<Rightarrow> fl" where
  "midpoint br = (case br of (a, b, fa) \<Rightarrow> fl_mul (Fin (1 / 2)) (fl_add a b))"

definition narrow :: "(fl \<Rightarrow> fl) \<Rightarrow> fl \<times> fl \<times> fl \<Rightarrow> fl \<times> fl \<times> fl" where
  "narrow f br =
     (case br of (a, b, fa) \<Rightarrow>
        if fl_le (fl_mul fa (f (midpoint br))) (Fin 0) then (a, midpoint br, fa)
        else (midpoint br, b, f (midpoint br)))"

text \<open>
  The first midpoint, among those of the first \<open>n\<close> brackets, whose value is below the
  tolerance; the midpoint of the bracket after \<open>n\<close> narrowings when there is none.
\<close>

definition bisect_spec :: "(fl \<Rightarrow> fl) \<Rightarrow> real \<Rightarrow> nat \<Rightarrow> fl \<times> fl \<times> fl \<Rightarrow> fl" where
  "bisect_spec f tol n br =
     (case first_index (\<lambda>i. fl_lt (fl_abs (f (midpoint ((narrow f ^^ i) br)))) (Fin tol)) n of
        Some i \<Rightarrow> midpoint ((narrow f ^^ i) br)
      | None \<Rightarrow> midpoint ((narrow f ^^ n) br))"

text \<open>The finite-difference Newton iteration.\<close>

definition step_size :: "fl \<Rightarrow> fl" where
  "step_size r = (if fl_lt (fl_abs r) (Fin 1) then Fin (1 / 1000000)
                  else fl_mul (fl_abs r) (Fin (1 / 1000000)))"

definition slope_estimate :: "(fl \<Rightarrow> fl) \<Rightarrow> fl \<Rightarrow> fl" where
  "slope_estimate f r = fl_div (fl_sub (f (fl_add r (step_size r))) (f r)) (step_size r)"

definition newton_step :: "(fl \<Rightarrow> fl) \<Rightarrow> fl \<Rightarrow> fl" where
  "newton_step f r = fl_sub r (fl_div (f r) (slope_estimate f r))"

definition converged :: "(fl \<Rightarrow> fl) \<Rightarrow> real \<Rightarrow> fl \<Rightarrow> bool" where
  "converged f tol r \<longleftrightarrow> fl_lt (fl_abs (fl_sub (newton_step f r) r)) (Fin tol)"

text \<open>
  The first of the \<open>n\<close> iterates at which the slope estimate is zero or the step is
  below the tolerance decides: a value in the second case only, an error in the first
  and when there is no such iterate.
\<close>

definition newton_spec :: "(fl \<Rightarrow> fl) \<Rightarrow> real \<Rightarrow> nat \<Rightarrow> fl \<Rightarrow> error + fl" where
  "newton_spec f tol n r0 =
     (case first_index (\<lambda>i. fl_eq (slope_estimate f ((newton_step f ^^ i) r0)) (Fin 0)
                             \<or> converged f tol ((newton_step f ^^ i) r0)) n of
        Some i \<Rightarrow>
          if fl_eq (slope_estimate f ((newton_step f ^^ i) r0)) (Fin 0) then Inl RuntimeError
          else Inr (newton_step f ((newton_step f ^^ i) r0))
      | None \<Rightarrow> Inl RuntimeError)"

definition extract_rate_spec :: "cashflows \<Rightarrow> real \<Rightarrow> real \<Rightarrow> nat \<Rightarrow> error + fl" where
  "extract_rate_spec cfs guess tol max_iter =
     (if \<not> (list_ex (\<lambda>e. 0 < snd e) cfs \<and> list_ex (\<lambda>e. snd e < 0) cfs) then Inl ValueError
      else (let series = ensure_series_index_datetime cfs;
                f = npv series (fst (hd series));
                upper = upper_bound (doublings f)
            in if same_sign (f lower_bound) (f upper)
               then newton_spec f tol max_iter (Fin guess)
               else Inr (bisect_spec f tol max_iter (lower_bound, upper, f lower_bound))))"

section \<open>Auxiliary definitions for the proofs\<close>

text \<open>The ledger has \<open>k\<close> rows; row \<open>i\<close> of a ledger.\<close>

definition rows :: "ledger \<Rightarrow> nat \<Rightarrow> bool" where
  "rows L k \<longleftrightarrow>
     length (interest_payments L) = k \<and> length (principal_payments L) = k \<and>
     length (fees_outstanding L) = k \<and> length (total_payments L) = k \<and>
     length (opening_balance L) = k \<and> length (closing_balance L) = k"

definition row :: "ledger \<Rightarrow> nat \<Rightarrow> real \<times> real \<times> real \<times> real \<times> real \<times> real" where
  "row L i = (interest_payments L ! i, principal_payments L ! i, fees_outstanding L ! i,
              total_payments L ! i, opening_balance L ! i, closing_balance L ! i)"

text \<open>The fee the walk adds to the payment of row \<open>i\<close>.\<close>

definition fee_at :: "loan \<Rightarrow> nat \<Rightarrow> real" where
  "fee_at self i =
     (if i = 1 then start_fee self
      else if i = length (dates (payment_schedule self)) - 1 then end_fee self else 0)"

text \<open>
  The closing balance of row \<open>i\<close> is \<open>level self i - payment * slope self i\<close>: the
  balance with no payment made, and the accumulated weight of the payments.
\<close>

definition growth :: "loan \<Rightarrow> nat \<Rightarrow> real" where
  "growth self i = (1 + rate self) powr
     (real_of_int (days_in_period (payment_schedule self) ! (i - 1)) / 365.25)"

fun level :: "loan \<Rightarrow> nat \<Rightarrow> real" where
  "level self 0 = amount self"
| "level self (Suc i) = level self i * growth self (Suc i)"

fun slope :: "loan \<Rightarrow> nat \<Rightarrow> real" where
  "slope self 0 = 0"
| "slope self (Suc i) = slope self i * growth self (Suc i) + 1"

section \<open>Inputs of the examples\<close>

text \<open>
  A function on which the Newton iteration of \<open>fsolve\<close> alternates between 0 and 1:
  \<open>lambda x: x - 1 if x < 0.5 else x\<close>.
\<close>

definition sawtooth :: "real \<Rightarrow> real" where
  "sawtooth x = (if x < 1 / 2 then x - 1 else x)"

text \<open>
  The object state of \<open>loanSchedule(amount=1000, rate=0.05, start_date='2023-01-01',
  payments=1, payment_date=15, frequency='monthly', start_fee=100, end_fee=200)\<close> when
  \<open>calculate_payment\<close> runs, and of the same loan with two payments and no fees.
\<close>

definition single_payment_loan :: loan where
  "single_payment_loan =
     \<lparr>amount = 1000, payments = 1, residual = 0, start_fee = 100, end_fee = 200,
      frequency = 1, rate = 5 / 100, start_date = \<lparr>year = 2023, month = 1, day = 1\<rparr>,
      payment_date = 15,
      payment_schedule = \<lparr>dates = [\<lparr>year = 2023, month = 1, day = 1\<rparr>,
                                    \<lparr>year = 2023, month = 1, day = 15\<rparr>],
                           days_in_period = [14]\<rparr>\<rparr>"

definition two_payment_loan :: loan where
  "two_payment_loan =
     \<lparr>amount = 1000, payments = 2, residual = 0, start_fee = 0, end_fee = 0,
      frequency = 1, rate = 5 / 100, start_date = \<lparr>year = 2023, month = 1, day = 1\<rparr>,
      payment_date = 15,
      payment_schedule = \<lparr>dates = [\<lparr>year = 2023, month = 1, day = 1\<rparr>,
                                    \<lparr>year = 2023, month = 1, day = 15\<rparr>,
                                    \<lparr>year = 2023, month = 2, day = 15\<rparr>],
                           days_in_period = [14, 31]\<rparr>\<rparr>"

section \<open>The schedule: first payment date and spacing\<close>

lemma first_payment_date_greater:
  "1 \<le> p \<Longrightarrow> p \<le> 28 \<Longrightarrow> p < day s \<Longrightarrow>
   first_payment_date s p = Inr ((month_begin s)\<lparr>day := p\<rparr>)"
  by (auto simp: first_payment_date_def replace_day_def month_begin_def days_in_month_def)

lemma first_payment_date_less:
  "1 \<le> p \<Longrightarrow> p \<le> 28 \<Longrightarrow> day s < p \<Longrightarrow> first_payment_date s p = Inr (s\<lparr>day := p\<rparr>)"
  by (auto simp: first_payment_date_def replace_day_def days_in_month_def)

lemma first_payment_date_equal:
  "first_payment_date s (day s) = Inl AttributeError"
  by (simp add: first_payment_date_def)

lemma no_payment_day_fails:
  "generate_schedule s (init_payment_date s None) f n = Inl AttributeError"
  by (simp add: generate_schedule_def init_payment_date_def first_payment_date_equal)

text \<open>
  Claim C1. The claim says that when the start date's day equals the payment day (the
  default when no payment day is given) the start date is kept as the first payment date
  and the schedule is generated. The code assigns no first payment date in that case, and
  the schedule generation raises \<open>AttributeError\<close>: for the loan starting on 2023-01-15
  with no payment day given, monthly, 12 payments, no schedule is produced. (The two
  other branches do what the claim says, see \<open>first_payment_date_greater\<close> and
  \<open>first_payment_date_less\<close>.)
\<close>

theorem generate_schedule_equal_day_fails:
  "generate_schedule \<lparr>year = 2023, month = 1, day = 15\<rparr>
     (init_payment_date \<lparr>year = 2023, month = 1, day = 15\<rparr> None) 1 12 = Inl AttributeError"
  by (simp add: generate_schedule_def init_payment_date_def first_payment_date_def)

lemma length_date_range: "length (date_range s n k) = n"
  by (induction n arbitrary: s) simp_all

lemma date_range_first: "0 < n \<Longrightarrow> date_range s n k ! 0 = s"
  by (cases n) simp_all

lemma date_range_Suc_nth:
  "Suc i < n \<Longrightarrow> date_range s n k ! Suc i = add_months (date_range s n k ! i) k"
proof (induction n arbitrary: s i)
  case 0
  then show ?case by simp
next
  case (Suc n)
  show ?case
  proof (cases i)
    case 0
    with Suc.prems show ?thesis by (cases n) simp_all
  next
    case (Suc j)
    with Suc.prems Suc.IH [of j "add_months s k"] show ?thesis by simp
  qed
qed

text \<open>
  Every payment date is the one before it moved by the table's number of calendar
  months, whatever the frequency name is; the first one is the first payment date.
\<close>

lemma payment_dates_spacing:
  assumes "generate_schedule sd pd f n = Inr sched" and "Suc i < n"
  shows "first_payment_date sd pd = Inr (dates sched ! 1) \<and>
         dates sched ! (i + 2) = add_months (dates sched ! (i + 1)) f"
proof -
  from assms(1) obtain fpd where fpd: "first_payment_date sd pd = Inr fpd"
    and s: "dates sched = sd # date_range fpd n f"
    by (auto simp: generate_schedule_def Let_def split: sum.splits)
  from assms(2) have "dates sched ! 1 = fpd" by (simp add: s date_range_first)
  moreover have "dates sched ! (i + 2) = add_months (dates sched ! (i + 1)) f"
    using assms(2) by (simp add: s date_range_Suc_nth)
  ultimately show ?thesis using fpd by simp
qed

text \<open>
  For \<open>monthly\<close> and \<open>annually\<close> the table's numbers, 1 and 12, are the months between
  two payments, and they are what the claim's \<open>12/frequency\<close> gives for 12 and 1
  periods a year.
\<close>

lemma monthly_annually_months:
  "frequency_dict ''monthly'' = Some (12 div 12) \<and> frequency_dict ''annually'' = Some (12 div 1)"
  by (simp add: frequency_dict_def)

lemma annual_schedule_example:
  "generate_schedule \<lparr>year = 2023, month = 1, day = 31\<rparr> 28 12 3 =
     Inr \<lparr>dates = [\<lparr>year = 2023, month = 1, day = 31\<rparr>, \<lparr>year = 2023, month = 2, day = 28\<rparr>,
                   \<lparr>year = 2024, month = 2, day = 28\<rparr>, \<lparr>year = 2025, month = 2, day = 28\<rparr>],
          days_in_period = [28, 365, 366]\<rparr>"
  by (simp add: generate_schedule_def first_payment_date_def replace_day_def month_begin_def
    days_in_month_def add_months_def toordinal_def days_before_year_def days_before_month_def
    is_leap_def Let_def numeral_3_eq_3 upto_rec_numeral)

text \<open>
  Claim C4. The claim says that the payment dates of a quarterly loan are 3 months apart.
  The table's number is used as the month offset
  (\<open>pd.DateOffset(months=self.frequency)\<close>), which is right for \<open>monthly\<close> (1) and
  \<open>annually\<close> (12); but the table gives \<open>quarterly\<close> the number 4 where the offset of a
  quarter is 3 (and \<open>semi-annually\<close> 5 where that of a half-year is 6). So the quarterly
  loan starting on 2023-01-01 with payment day 15 has its payments on 2023-01-15 and
  2023-05-15, four months apart and not three.
\<close>

theorem quarterly_schedule_four_months_apart:
  "frequency_dict ''quarterly'' = Some 4 \<and>
   generate_schedule \<lparr>year = 2023, month = 1, day = 1\<rparr> 15 4 2 =
     Inr \<lparr>dates = [\<lparr>year = 2023, month = 1, day = 1\<rparr>, \<lparr>year = 2023, month = 1, day = 15\<rparr>,
                   \<lparr>year = 2023, month = 5, day = 15\<rparr>],
          days_in_period = [14, 120]\<rparr> \<and>
   \<lparr>year = 2023, month = 5, day = 15\<rparr> = add_months \<lparr>year = 2023, month = 1, day = 15\<rparr> 4 \<and>
   \<lparr>year = 2023, month = 5, day = 15\<rparr> \<noteq> add_months \<lparr>year = 2023, month = 1, day = 15\<rparr> (12 div 4)"
  by (simp add: frequency_dict_def generate_schedule_def first_payment_date_def replace_day_def
      days_in_month_def add_months_def toordinal_def days_before_year_def days_before_month_def
      is_leap_def Let_def numeral_2_eq_2 upto.simps)

section \<open>The solver of hazel.py\<close>

lemma fsolve_loop_sawtooth:
  "fsolve_loop sawtooth (1 / 100000) n 0 = Inr None \<and>
   fsolve_loop sawtooth (1 / 100000) n 1 = Inr None"
  by (induction n) (simp_all add: sawtooth_def Let_def)

lemma fsolve_loop_cases:
  "fsolve_loop func xtol n x = Inr None \<or> fsolve_loop func xtol n x = Inl ValueError
   \<or> (\<exists>r. fsolve_loop func xtol n x = Inr (Some r))"
  by (induction n arbitrary: x) (auto simp: Let_def)

text \<open>
  Claim C2. The claim says that a Newton iteration that uses up its budget without
  meeting the tolerance fails with an error and never returns an absent result. In the
  code the loop of \<open>fsolve\<close> is followed by nothing, so the call returns \<open>None\<close>: on
  \<open>sawtooth\<close> from 0, with the default tolerance and the default 100 iterations, the
  iterates alternate between 1 and 0, no step is below the tolerance, no slope is zero,
  and the result is \<open>None\<close>.
\<close>

theorem fsolve_exhaustion_returns_None: "fsolve sawtooth 0 (1 / 100000) 100 = Inr None"
  by (simp add: fsolve_def fsolve_loop_sawtooth)

text \<open>On a function \<open>a - b * x\<close> with \<open>b \<noteq> 0\<close>, two iterations are enough.\<close>

lemma fsolve_loop_affine:
  assumes "\<And>x. func x = a - b * x" and "b \<noteq> 0" and "0 < xtol"
  shows "fsolve_loop func xtol (Suc (Suc n)) x = Inr (Some (a / b))"
proof -
  have fp: "(func (y + 1 / 100000) - func y) / (1 / 100000) = - b" for y
    by (simp add: assms(1) algebra_simps)
  have nx: "y - func y / (- b) = a / b" for y
    using assms(2) by (simp add: assms(1) field_simps)
  have step: "fsolve_loop func xtol (Suc k) y =
      (if \<bar>a / b - y\<bar> < xtol then Inr (Some (a / b)) else fsolve_loop func xtol k (a / b))" for k y
    unfolding fsolve_loop.simps(2) Let_def fp nx using assms(2) by simp
  show ?thesis
    unfolding step using assms(3) by simp
qed

section \<open>The amortization walk\<close>

lemma walk_Suc: "walk self p (Suc k) = period_step self p k (walk self p k)"
  by (simp add: walk_def)

text \<open>The three payment branches differ in the fee only.\<close>

lemma period_step_payment_row:
  "1 \<le> k \<Longrightarrow> period_step self p k L =
     (let ob = opening_balance L @ [closing_balance L ! (k - 1)];
          interest = accrued self ob k
      in \<lparr>interest_payments = interest_payments L @ [interest],
          principal_payments = principal_payments L @ [p - interest],
          fees_outstanding = fees_outstanding L @ [fees_outstanding L ! (k - 1) - fee_at self k],
          total_payments = total_payments L @ [p + fee_at self k],
          opening_balance = ob,
          closing_balance = closing_balance L @ [ob ! k - (p - interest)]\<rparr>)"
  by (simp add: period_step_def fee_at_def Let_def)

lemma period_step_rows: "rows L k \<Longrightarrow> 1 \<le> k \<Longrightarrow> rows (period_step self p k L) (Suc k)"
  by (simp add: period_step_payment_row rows_def Let_def)

text \<open>Every list of the ledger has one entry per row walked: no read is out of range.\<close>

lemma walk_rows: "1 \<le> k \<Longrightarrow> rows (walk self p k) k"
proof (induction k)
  case 0
  then show ?case by simp
next
  case (Suc k)
  show ?case
  proof (cases "k = 0")
    case True
    then show ?thesis by (simp add: walk_def period_step_def initial_ledger_def rows_def)
  next
    case False
    with Suc have "rows (walk self p k) k" by simp
    with False show ?thesis unfolding walk_Suc by (intro period_step_rows) simp_all
  qed
qed

lemma period_step_keeps_row:
  "rows L k \<Longrightarrow> i < k \<Longrightarrow> row (period_step self p k L) i = row L i"
  by (simp add: period_step_payment_row rows_def row_def Let_def nth_append)

lemma walk_keeps_row: "i < k \<Longrightarrow> k \<le> m \<Longrightarrow> row (walk self p m) i = row (walk self p k) i"
proof (induction m)
  case 0
  then show ?case by simp
next
  case (Suc m)
  show ?case
  proof (cases "k = Suc m")
    case True
    then show ?thesis by simp
  next
    case False
    with Suc have km: "k \<le> m" and im: "i < m" by simp_all
    then have "rows (walk self p m) m" by (intro walk_rows) simp
    then have "row (walk self p (Suc m)) i = row (walk self p m) i"
      unfolding walk_Suc using im by (rule period_step_keeps_row)
    with Suc km show ?thesis by simp
  qed
qed

lemma period_step_new_row:
  assumes "rows L k" and "1 \<le> k"
  shows "row (period_step self p k L) k =
     (let ob = closing_balance L ! (k - 1);
          interest = ob * ((1 + rate self) powr
                 (real_of_int (days_in_period (payment_schedule self) ! (k - 1)) / 365.25) - 1)
      in (interest, p - interest, fees_outstanding L ! (k - 1) - fee_at self k,
          p + fee_at self k, ob, ob - (p - interest)))"
  using assms
  by (simp add: period_step_payment_row rows_def row_def accrued_def Let_def nth_append)

text \<open>Row \<open>i\<close> of the ledger, for a payment row.\<close>

lemma walk_row:
  fixes self :: loan and p :: real and m :: nat
  assumes "1 \<le> i" and "i < m"
  defines "L \<equiv> walk self p m"
  shows "opening_balance L ! i = closing_balance L ! (i - 1)"
    and "interest_payments L ! i = opening_balance L ! i * ((1 + rate self) powr
           (real_of_int (days_in_period (payment_schedule self) ! (i - 1)) / 365.25) - 1)"
    and "principal_payments L ! i = p - interest_payments L ! i"
    and "closing_balance L ! i = opening_balance L ! i - principal_payments L ! i"
    and "total_payments L ! i = p + fee_at self i"
    and "fees_outstanding L ! i = fees_outstanding L ! (i - 1) - fee_at self i"
proof -
  have r: "rows (walk self p i) i" using assms(1) by (rule walk_rows)
  have a: "row L i = row (period_step self p i (walk self p i)) i"
    unfolding L_def using walk_keeps_row [of i "Suc i" m self p] assms(2) by (simp add: walk_Suc)
  have b: "row L (i - 1) = row (walk self p i) (i - 1)"
    unfolding L_def using walk_keeps_row [of "i - 1" i m self p] assms by simp
  note c = a [unfolded period_step_new_row [OF r assms(1)]]
  from b c show "opening_balance L ! i = closing_balance L ! (i - 1)"
    and "interest_payments L ! i = opening_balance L ! i * ((1 + rate self) powr
           (real_of_int (days_in_period (payment_schedule self) ! (i - 1)) / 365.25) - 1)"
    and "principal_payments L ! i = p - interest_payments L ! i"
    and "closing_balance L ! i = opening_balance L ! i - principal_payments L ! i"
    and "total_payments L ! i = p + fee_at self i"
    and "fees_outstanding L ! i = fees_outstanding L ! (i - 1) - fee_at self i"
    by (simp_all add: row_def Let_def)
qed

text \<open>With two payments or more, the first and the last payment row carry the two fees.\<close>

lemma fee_boundaries:
  fixes self :: loan and p :: real
  assumes "length (dates (payment_schedule self)) = Suc N" and "2 \<le> N"
  defines "L \<equiv> snd (calculate_payment self p)"
  shows "total_payments L ! 1 = p + start_fee self"
    and "fees_outstanding L ! 1 = fees_outstanding L ! 0 - start_fee self"
    and "total_payments L ! N = p + end_fee self"
    and "fees_outstanding L ! N = fees_outstanding L ! (N - 1) - end_fee self"
  using assms walk_row(5,6) [of 1 "Suc N" self p] walk_row(5,6) [of N "Suc N" self p]
  by (simp_all add: calculate_payment_def Let_def fee_at_def)

lemma single_payment_schedule:
  "generate_schedule \<lparr>year = 2023, month = 1, day = 1\<rparr>
     (init_payment_date \<lparr>year = 2023, month = 1, day = 1\<rparr> (Some 15)) 1 1
     = Inr (payment_schedule single_payment_loan)"
  by (simp add: generate_schedule_def init_payment_date_def first_payment_date_def
      replace_day_def days_in_month_def single_payment_loan_def toordinal_def
      days_before_year_def days_before_month_def)

text \<open>
  Claim C5. The claim says that the first payment row carries the start fee and the last
  one the end fee, and that with a single payment, where the two rows are one, both
  adjustments apply. The walk tests \<open>date == 1\<close> before
  \<open>date == len(self.payment_schedule) - 1\<close>, so with a single payment only the start-fee
  branch runs: for the loan of 1000 with one payment, start fee 100 and end fee 200, the
  payment row totals \<open>payment + 100\<close>, and the outstanding fees stay at 200 instead of
  reaching 0.
\<close>

theorem single_payment_end_fee_not_charged:
  "total_payments (snd (calculate_payment single_payment_loan p)) = [0, p + 100] \<and>
   fees_outstanding (snd (calculate_payment single_payment_loan p)) = [300, 200]"
  by (simp add: calculate_payment_def walk_def period_step_def initial_ledger_def
      single_payment_loan_def Let_def numeral_2_eq_2)

section \<open>The solved payment: no validation of the loan terms\<close>

lemma slope_nonneg: "0 \<le> slope self i"
  by (induction i) (simp_all add: growth_def)

lemma slope_pos: "1 \<le> i \<Longrightarrow> 1 \<le> slope self i"
  using slope_nonneg [of self "i - 1"] by (cases i) (simp_all add: growth_def)

lemma walk_first_row: "1 \<le> m \<Longrightarrow> closing_balance (walk self p m) ! 0 = amount self"
  using walk_keeps_row [of 0 1 m self p]
  by (simp add: row_def walk_def period_step_def initial_ledger_def)

lemma closing_affine:
  "i < m \<Longrightarrow> closing_balance (walk self p m) ! i = level self i - p * slope self i"
proof (induction i)
  case 0
  then show ?case by (simp add: walk_first_row)
next
  case (Suc i)
  define L where "L = walk self p m"
  define g where "g = growth self (Suc i)"
  from Suc have ih: "closing_balance L ! i = level self i - p * slope self i"
    by (simp add: L_def)
  have ob: "opening_balance L ! Suc i = closing_balance L ! i"
    and ip: "interest_payments L ! Suc i = opening_balance L ! Suc i * (g - 1)"
    and pp: "principal_payments L ! Suc i = p - interest_payments L ! Suc i"
    and cb: "closing_balance L ! Suc i = opening_balance L ! Suc i - principal_payments L ! Suc i"
    using Suc.prems walk_row(1-4) [of "Suc i" m self p] by (simp_all add: L_def g_def growth_def)
  have "closing_balance L ! Suc i = closing_balance L ! i * g - p"
    unfolding cb pp ip ob by (simp add: algebra_simps)
  also have "\<dots> = level self (Suc i) - p * slope self (Suc i)"
    unfolding ih by (simp add: g_def algebra_simps)
  finally show ?case by (simp add: L_def)
qed

text \<open>What \<open>calculate_payment\<close> returns is an affine function of the payment.\<close>

lemma calculate_payment_affine:
  "1 \<le> length (dates (payment_schedule self)) \<Longrightarrow>
   fst (calculate_payment self p) =
     (level self (length (dates (payment_schedule self)) - 1) - residual self)
       - slope self (length (dates (payment_schedule self)) - 1) * p"
  by (simp add: calculate_payment_def Let_def closing_affine)

text \<open>
  So the constructor returns a payment for every amount, and for every rate above
  \<open>-1\<close> (where the real power is the float power up to rounding), as soon as the
  frequency name is known, there is one payment at least and the first payment date
  exists. With no payment, the division \<open>amount / payments\<close> raises.
\<close>

lemma init_succeeds:
  assumes "frequency_dict freq = Some f" and "1 \<le> n"
    and "first_payment_date sd (init_payment_date sd pd) = Inr d"
    and "- 1 < r"
  shows "\<exists>self p. loanSchedule_init amt r sd n res pd freq sfee efee = Inr (self, Some p)"
proof -
  define sched where "sched = \<lparr>dates = sd # date_range d n f,
     days_in_period = day_diffs (sd # date_range d n f)\<rparr>"
  define self where "self = \<lparr>amount = amt, payments = n, residual = res, start_fee = sfee,
     end_fee = efee, frequency = f, rate = r, start_date = sd,
     payment_date = init_payment_date sd pd, payment_schedule = sched\<rparr>"
  have len: "length (dates (payment_schedule self)) = Suc n"
    by (simp add: self_def sched_def length_date_range)
  have aff: "fst (calculate_payment self x) = (level self n - residual self) - slope self n * x" for x
    using calculate_payment_affine [of self x] len by simp
  have "slope self n \<noteq> 0" using slope_pos [of n self] assms(2) by simp
  then have "fsolve (\<lambda>x. fst (calculate_payment self x)) (amt / real n) (1 / 100000) 100
     = Inr (Some ((level self n - residual self) / slope self n))"
    unfolding fsolve_def
    using fsolve_loop_affine [of "\<lambda>x. fst (calculate_payment self x)" _ _ "1 / 100000" 98] aff
    by (simp add: eval_nat_numeral del: fsolve_loop.simps)
  then show ?thesis
    using assms(1-3)
    by (simp add: loanSchedule_init_def generate_schedule_def Let_def self_def sched_def)
qed

lemma init_no_payments:
  assumes "frequency_dict freq = Some f"
    and "first_payment_date sd (init_payment_date sd pd) = Inr d"
  shows "loanSchedule_init amt r sd 0 res pd freq sfee efee = Inl ZeroDivisionError"
  using assms by (simp add: loanSchedule_init_def generate_schedule_def Let_def)

text \<open>
  Claim C3. The claim says that a loan with \<open>principal \<le> 0\<close>, a negative rate or no
  payment is rejected with an error before anything is computed; the repository's
  functional tests expect an exception for \<open>amount=-1000\<close>, for \<open>rate=-0.05\<close> and for
  \<open>payments=0\<close>. The constructor checks none of the three: for the test's loan of
  \<open>-1000\<close> at 5 percent from 2023-01-01, 12 monthly payments on day 15, it generates
  the schedule, runs the solver and returns an object with a payment.
\<close>

theorem negative_amount_accepted:
  "\<exists>self p. loanSchedule_init (- 1000) (5 / 100) \<lparr>year = 2023, month = 1, day = 1\<rparr> 12 0
      (Some 15) ''monthly'' 0 0 = Inr (self, Some p)"
  by (rule init_succeeds [where f = 1 and d = "\<lparr>year = 2023, month = 1, day = 15\<rparr>"])
     (simp_all add: frequency_dict_def init_payment_date_def first_payment_date_def
       replace_day_def days_in_month_def)

section \<open>Sums of floats and sorted series\<close>

lemma fl_add_left_commute: "fl_add x (fl_add y z) = fl_add y (fl_add x z)"
  by (cases x; cases y; cases z) simp_all

text \<open>The exact sum does not depend on the order of the summands.\<close>

lemma fl_sum_mset: "mset xs = mset ys \<Longrightarrow> fl_sum xs = fl_sum ys"
  unfolding fl_sum_def
  by (rule arg_cong [where f = "\<lambda>g. g (Fin 0)"], rule fold_multiset_equiv)
     (auto simp: fun_eq_iff fl_add_left_commute)

lemma list_ex_sorted_vals:
  "list_ex P (map snd (ensure_series_index_datetime cfs)) \<longleftrightarrow> list_ex (\<lambda>e. P (snd e)) cfs"
  by (auto simp: list_ex_iff ensure_series_index_datetime_def)

lemma series_empty_iff: "ensure_series_index_datetime cfs = [] \<longleftrightarrow> cfs = []"
  unfolding ensure_series_index_datetime_def by (metis length_0_conv length_sort)

lemma remaining_mset:
  "mset (map g (filter P (ensure_series_index_datetime cfs))) = mset (map g (filter P cfs))"
  by (simp add: ensure_series_index_datetime_def)

lemma remaining_empty_iff:
  "filter P (ensure_series_index_datetime cfs) = [] \<longleftrightarrow> filter P cfs = []"
  by (simp add: ensure_series_index_datetime_def filter_empty_conv)

lemma pv_as_sum:
  "compute_pv_of_cashflows cfs r base =
     fl_sum (map (discounted r base) (filter (\<lambda>e. base \<le> fst e) cfs))"
proof -
  let ?P = "\<lambda>e. base \<le> fst e"
  have s: "fl_sum (map (discounted r base) (filter ?P (ensure_series_index_datetime cfs))) =
           fl_sum (map (discounted r base) (filter ?P cfs))"
    by (rule fl_sum_mset) (rule remaining_mset)
  show ?thesis
    unfolding compute_pv_of_cashflows_def Let_def s remaining_empty_iff
    by (simp add: fl_sum_def)
qed





section \<open>Rate extraction: the precondition\<close>

text \<open>
  Claim C6. A series that does not hold a strictly positive and a strictly negative
  amount, the empty series among them, makes \<open>xirr\<close> raise \<open>ValueError\<close>, whatever the
  guess, the tolerance and the iteration budget are: the two checks come before the bounds
  are evaluated.
\<close>

theorem xirr_requires_sign_mix:
  "\<not> (list_ex (\<lambda>e. 0 < snd e) cfs \<and> list_ex (\<lambda>e. snd e < 0) cfs) \<Longrightarrow>
   xirr cfs guess tol max_iter = Inl ValueError"
  unfolding xirr_def Let_def list_ex_sorted_vals by simp

theorem xirr_requires_sign_mix_witness:
  "xirr [(0, 100), (365, 50), (730, 50)] 0.05 (1 / 10 ^ 8) 200 = Inl ValueError \<and>
   xirr [] 0.05 (1 / 10 ^ 8) 200 = Inl ValueError"
  using xirr_requires_sign_mix [of "[(0, 100), (365, 50), (730, 50)]" "0.05" "1 / 10 ^ 8" 200]
    xirr_requires_sign_mix [of "[]" "0.05" "1 / 10 ^ 8" 200]
  by simp

section \<open>Discounting\<close>

text \<open>
  Claim C8. The discounted value of a series is the sum, over the entries dated at the
  base date or later, of \<open>amount / (1 + rate) ** (gap / 365)\<close> with the day gap to the
  base date, which is not negative; earlier entries are left out, and with no entry left
  the value is 0.
\<close>

theorem discount_postcondition:
  "compute_pv_of_cashflows cfs r base =
     fl_sum (map (\<lambda>e. fl_div (Fin (snd e))
                        (fl_pow (fl_add (Fin 1) r) (real_of_int (fst e - base) / 365)))
               (filter (\<lambda>e. base \<le> fst e) cfs))
   \<and> (\<forall>e \<in> set (filter (\<lambda>e. base \<le> fst e) cfs). 0 \<le> fst e - base)
   \<and> (filter (\<lambda>e. base \<le> fst e) cfs = [] \<longrightarrow> compute_pv_of_cashflows cfs r base = Fin 0)"
proof -
  have d: "discounted r base = (\<lambda>e. fl_div (Fin (snd e))
             (fl_pow (fl_add (Fin 1) r) (real_of_int (fst e - base) / 365)))"
    by (simp add: fun_eq_iff discounted_def)
  have "filter (\<lambda>e. base \<le> fst e) cfs = [] \<longrightarrow> compute_pv_of_cashflows cfs r base = Fin 0"
    by (simp add: pv_as_sum fl_sum_def)
  with pv_as_sum [of cfs r base] show ?thesis unfolding d by simp
qed

theorem discount_postcondition_witness:
  "compute_pv_of_cashflows [(365, 100), (- 5, 70), (0, 30)] (Fin 1) 0 = Fin 80 \<and>
   compute_pv_of_cashflows [(- 5, 70)] (Fin 1) 0 = Fin 0"
  using discount_postcondition [of "[(365, 100), (- 5, 70), (0, 30)]" "Fin 1" 0]
    discount_postcondition [of "[(- 5, 70)]" "Fin 1" 0]
  by (simp add: fl_sum_def)

section \<open>Rate extraction: brackets first, Newton as the fallback\<close>

lemma find_map_option: "find P (map g xs) = map_option g (find (\<lambda>x. P (g x)) xs)"
  by (induction xs) simp_all

lemma first_index_Suc:
  "first_index P (Suc n) =
     (if P 0 then Some 0 else map_option Suc (first_index (\<lambda>i. P (Suc i)) n))"
proof -
  have "[0..<Suc n] = 0 # map Suc [0..<n]"
    by (simp add: upt_conv_Cons map_Suc_upt del: upt_Suc)
  then show ?thesis by (simp add: first_index_def find_map_option del: upt_Suc)
qed

text \<open>The value at the upper end of the bracket is carried along and never read.\<close>

lemma bisect_ignores_fb: "bisect f tol n a b fa fb = bisect f tol n a b fa fb'"
  by (induction n arbitrary: a b fa fb fb') (simp_all add: Let_def)

lemma bisect_Suc:
  "bisect f tol (Suc n) a b fa fb =
     (if fl_lt (fl_abs (f (midpoint (a, b, fa)))) (Fin tol) then midpoint (a, b, fa)
      else (case narrow f (a, b, fa) of (a', b', fa') \<Rightarrow> bisect f tol n a' b' fa' fb))"
  by (auto simp: Let_def narrow_def midpoint_def intro: bisect_ignores_fb)

lemma bisect_eq_spec: "bisect f tol n a b fa fb = bisect_spec f tol n (a, b, fa)"
proof (induction n arbitrary: a b fa fb)
  case 0
  then show ?case by (simp add: bisect_spec_def first_index_def midpoint_def)
next
  case (Suc n)
  obtain a' b' fa' where nr: "narrow f (a, b, fa) = (a', b', fa')" by (cases "narrow f (a, b, fa)")
  show ?case
    unfolding bisect_Suc nr
    by (simp add: Suc bisect_spec_def first_index_Suc funpow_swap1 nr split: option.splits)
qed

lemma newton_Suc:
  "newton f tol (Suc n) r =
     (if fl_eq (slope_estimate f r) (Fin 0) then Inl RuntimeError
      else if converged f tol r then Inr (newton_step f r)
      else newton f tol n (newton_step f r))"
  by (simp add: Let_def converged_def newton_step_def slope_estimate_def step_size_def)

lemma newton_eq_spec: "newton f tol n r = newton_spec f tol n r"
proof (induction n arbitrary: r)
  case 0
  then show ?case by (simp add: newton_spec_def first_index_def)
next
  case (Suc n)
  show ?case
    unfolding newton_Suc
    by (simp add: Suc newton_spec_def first_index_Suc funpow_swap1 split: option.splits)
qed

lemma upper_bound_double: "fl_mul (upper_bound j) (Fin 2) = upper_bound (Suc j)"
  by (simp add: upper_bound_def)

text \<open>
  The loop of the bracket search, entered after \<open>j\<close> doublings with a bound that does
  not exceed \<open>1e6\<close>, ends at the first later bound at which it stops.
\<close>

lemma expand_from:
  fixes f :: "fl \<Rightarrow> fl"
  defines "stop \<equiv> \<lambda>k. \<not> same_sign (f lower_bound) (f (upper_bound k))
                         \<or> fl_lt (Fin 1000000) (upper_bound k)"
  assumes "j \<le> 50" and "\<not> fl_lt (Fin 1000000) (upper_bound j)"
  shows "expand f (f lower_bound) (upper_bound j) (f (upper_bound j)) j =
     (let k = (case find stop [j..<50] of Some k \<Rightarrow> k | None \<Rightarrow> 50)
      in (upper_bound k, f (upper_bound k)))"
  using assms(2,3)
proof (induction "50 - j" arbitrary: j)
  case 0
  then have "j = 50" by simp
  then show ?case by (subst expand.simps) simp
next
  case (Suc d)
  then have j: "j < 50" by simp
  then have l: "[j..<50] = j # [Suc j..<50]" by (simp add: upt_conv_Cons)
  show ?case
  proof (cases "same_sign (f lower_bound) (f (upper_bound j))")
    case False
    then show ?thesis
      by (subst expand.simps) (simp add: l stop_def same_sign_def)
  next
    case True
    with Suc.prems have ns: "\<not> stop j" by (simp add: stop_def)
    show ?thesis
    proof (cases "fl_lt (Fin 1000000) (upper_bound (Suc j))")
      case big: True
      then have "stop (Suc j)" by (simp add: stop_def)
      then have "(case find stop [Suc j..<50] of Some k \<Rightarrow> k | None \<Rightarrow> 50) = Suc j"
        using j by (cases "Suc j < 50") (simp_all add: upt_conv_Cons)
      with True big j ns show ?thesis
        by (subst expand.simps) (simp add: l same_sign_def upper_bound_double Let_def)
    next
      case small: False
      have "expand f (f lower_bound) (upper_bound (Suc j)) (f (upper_bound (Suc j))) (Suc j) =
         (let k = (case find stop [Suc j..<50] of Some k \<Rightarrow> k | None \<Rightarrow> 50)
          in (upper_bound k, f (upper_bound k)))"
        using Suc.hyps(2) j small by (intro Suc.hyps(1)) simp_all
      with True small j ns show ?thesis
        by (subst expand.simps) (simp add: l same_sign_def upper_bound_double Let_def)
    qed
  qed
qed

lemma expand_eq_spec:
  "expand f (f lower_bound) (Fin 10) (f (Fin 10)) 0 =
     (upper_bound (doublings f), f (upper_bound (doublings f)))"
  using expand_from [of 0 f]
  by (simp add: doublings_def first_index_def Let_def upper_bound_def)

lemma doublings_le: "doublings f \<le> 50"
  by (auto simp: doublings_def first_index_def split: option.splits dest!: find_Some_iff [THEN iffD1])

text \<open>The step size of the derivative estimate is never zero.\<close>

lemma step_size_nonzero: "step_size r \<noteq> Fin 0"
  by (cases r) (auto simp: step_size_def inf_of_sign_def)

text \<open>
  Claim C7. \<open>xirr\<close> is the function the specification describes: from the bounds
  \<open>-0.9999\<close> and 10 the upper bound is doubled while both endpoint values share a sign,
  at most 50 times and not beyond \<open>1e6\<close>; with a bracket found it bisects, returns the
  first midpoint whose value is below the tolerance and else the midpoint of the last
  bracket; with none found it runs the finite-difference Newton iteration from the guess,
  and when that does not converge (or meets a zero slope) it raises an error and returns
  no value. With the defaults the guess is 0.05.
\<close>

theorem xirr_bracket_then_newton:
  "xirr cfs guess tol max_iter = extract_rate_spec cfs guess tol max_iter
   \<and> xirr_default cfs = extract_rate_spec cfs 0.05 (1 / 10 ^ 8) 200"
proof -
  have "xirr cfs g t n = extract_rate_spec cfs g t n" for g t n
  proof (cases "list_ex (\<lambda>e. 0 < snd e) cfs \<and> list_ex (\<lambda>e. snd e < 0) cfs")
    case False
    then show ?thesis
      unfolding xirr_def extract_rate_spec_def Let_def list_ex_sorted_vals by simp
  next
    case True
    then have "cfs \<noteq> []" by auto
    then have ne: "ensure_series_index_datetime cfs \<noteq> []" by (simp add: series_empty_iff)
    from True ne show ?thesis
      unfolding xirr_def extract_rate_spec_def Let_def list_ex_sorted_vals
      using expand_eq_spec [of "npv (ensure_series_index_datetime cfs)
                                   (fst (hd (ensure_series_index_datetime cfs)))"]
      by (simp add: lower_bound_def same_sign_def bisect_eq_spec newton_eq_spec)
  qed
  then show ?thesis by (simp add: xirr_default_def)
qed

theorem xirr_bracket_then_newton_witness:
  "xirr [(0, - 100), (365, 110)] 0.05 (1 / 10 ^ 8) 1 = Inr (Fin 1.750075) \<and>
   xirr [(0, - 100), (0, 50)] 0.05 (1 / 10 ^ 8) 200 = Inl RuntimeError"
proof -
  have "extract_rate_spec [(0, - 100), (365, 110)] 0.05 (1 / 10 ^ 8) 1 = Inr (Fin 1.750075)"
    by (simp add: extract_rate_spec_def ensure_series_index_datetime_def npv_def fl_le_def
      discounted_def fl_sum_def doublings_def first_index_def upper_bound_def lower_bound_def
      same_sign_def bisect_spec_def midpoint_def narrow_def upt_conv_Cons Let_def)
  moreover have "extract_rate_spec [(0, - 100), (0, 50)] 0.05 (1 / 10 ^ 8) 200 = Inl RuntimeError"
    by (simp add: extract_rate_spec_def ensure_series_index_datetime_def npv_def fl_le_def
      discounted_def fl_sum_def doublings_def first_index_def upper_bound_def lower_bound_def
      same_sign_def newton_spec_def slope_estimate_def step_size_def fl_sub_def inf_of_sign_def
      upt_conv_Cons Let_def)
  ultimately show ?thesis
    using xirr_bracket_then_newton [of "[(0, - 100), (365, 110)]" "0.05" "1 / 10 ^ 8" 1]
      xirr_bracket_then_newton [of "[(0, - 100), (0, 50)]" "0.05" "1 / 10 ^ 8" 200]
    by simp
qed

section \<open>The order of the series\<close>

lemma fl_add_commute: "fl_add a b = fl_add b a"
  by (cases a; cases b) simp_all

lemma fl_round_id: "fl_round id a = a"
  by (cases a) simp_all

text \<open>With no rounding, the variants with a rounding are the functions themselves.\<close>

lemma fl_sum_rounded_id: "fl_sum_rounded id xs = fl_sum xs"
proof -
  have "(\<lambda>x acc. fl_round id (fl_add acc x)) = fl_add"
    by (intro ext) (simp add: fl_round_id fl_add_commute)
  then show ?thesis by (simp add: fl_sum_rounded_def fl_sum_def)
qed

lemma compute_pv_rounded_id:
  "compute_pv_of_cashflows_rounded id cfs r base = compute_pv_of_cashflows cfs r base"
  by (simp add: compute_pv_of_cashflows_rounded_def compute_pv_of_cashflows_def fl_sum_rounded_id
      Let_def)

lemma npv_rounded_id: "npv_rounded id series base = npv series base"
  by (simp add: fun_eq_iff npv_rounded_def npv_def fl_sum_rounded_id)

lemma xirr_rounded_id: "xirr_rounded id cfs guess tol max_iter = xirr cfs guess tol max_iter"
  by (simp add: xirr_rounded_def xirr_def solve_rate_def npv_rounded_id Let_def)











section \<open>The two day-count conventions\<close>

lemma discounted_finite:
  "- 1 < x \<Longrightarrow>
   discounted (Fin x) base e = Fin (snd e / (1 + x) powr (real_of_int (fst e - base) / 365))"
  by (simp add: discounted_def)

text \<open>
  Claim C9. The walk starts from the amount; every payment row \<open>i\<close> opens with the
  closing balance of the row before, accrues the interest
  \<open>opening_balance[i] * ((1 + rate) ** (days_in_period[i-1] / 365.25) - 1)\<close>, with the
  annual rate and a year of 365.25 days, and closes with the opening balance less the
  payment's principal part. Discounting a series divides every amount at or after the
  base date by \<open>(1 + rate) ** (gap / 365)\<close>, with a year of 365 days. For one rate
  other than 0 and one positive number of days the two factors differ. (For a rate above
  \<open>-1\<close>, where the real power is the float power up to rounding.)
\<close>

theorem day_count_conventions:
  fixes self :: loan and p :: real
  assumes "1 \<le> i" and "i < length (dates (payment_schedule self))"
    and "- 1 < rate self" and "0 < k"
  defines "L \<equiv> snd (calculate_payment self p)"
  shows "closing_balance L ! 0 = amount self
       \<and> opening_balance L ! i = closing_balance L ! (i - 1)
       \<and> interest_payments L ! i =
           opening_balance L ! i *
             ((1 + rate self) powr
                (real_of_int (days_in_period (payment_schedule self) ! (i - 1)) / 365.25) - 1)
       \<and> closing_balance L ! i = opening_balance L ! i - (p - interest_payments L ! i)
       \<and> compute_pv_of_cashflows cfs (Fin (rate self)) base =
           fl_sum (map (\<lambda>e. Fin (snd e / (1 + rate self) powr (real_of_int (fst e - base) / 365)))
                     (filter (\<lambda>e. base \<le> fst e) cfs))
       \<and> (rate self \<noteq> 0 \<longrightarrow>
            (1 + rate self) powr (real_of_int k / 365.25) \<noteq>
            (1 + rate self) powr (real_of_int k / 365))"
proof -
  let ?n = "length (dates (payment_schedule self))"
  have L: "L = walk self p ?n" by (simp add: L_def calculate_payment_def Let_def)
  have a: "closing_balance L ! 0 = amount self"
    unfolding L using assms(1,2) by (intro walk_first_row) simp
  note w = walk_row(1-4) [of i ?n self p, OF assms(1,2), folded L]
  have d: "compute_pv_of_cashflows cfs (Fin (rate self)) base =
           fl_sum (map (\<lambda>e. Fin (snd e / (1 + rate self) powr (real_of_int (fst e - base) / 365)))
                     (filter (\<lambda>e. base \<le> fst e) cfs))"
  proof -
    have "discounted (Fin (rate self)) base =
          (\<lambda>e. Fin (snd e / (1 + rate self) powr (real_of_int (fst e - base) / 365)))"
      using assms(3) by (simp add: fun_eq_iff discounted_finite)
    then show ?thesis by (simp add: pv_as_sum)
  qed
  have e: "(1 + rate self) powr (real_of_int k / 365.25) \<noteq>
           (1 + rate self) powr (real_of_int k / 365)" if "rate self \<noteq> 0"
  proof -
    have "real_of_int k / 365.25 \<noteq> real_of_int k / 365" using assms(4) by simp
    then show ?thesis using powr_inj [of "1 + rate self"] assms(3) that by simp
  qed
  from a w d e show ?thesis by (simp add: w(3))
qed

theorem day_count_conventions_witness:
  "interest_payments (snd (calculate_payment two_payment_loan 500)) ! 1 =
     1000 * ((1 + 5 / 100) powr (14 / 365.25) - 1)
   \<and> interest_payments (snd (calculate_payment two_payment_loan 500)) ! 2 =
     (1000 - (500 - 1000 * ((1 + 5 / 100) powr (14 / 365.25) - 1))) *
       ((1 + 5 / 100) powr (31 / 365.25) - 1)
   \<and> compute_pv_of_cashflows [(31, 500), (- 3, 20)] (Fin (5 / 100)) 0 =
       Fin (500 / (1 + 5 / 100) powr (31 / 365))
   \<and> (1 + 5 / 100) powr (31 / 365.25) \<noteq> ((1 + 5 / 100) powr (31 / 365) :: real)"
proof -
  let ?L = "snd (calculate_payment two_payment_loan 500)"
  note a = day_count_conventions [of 1 two_payment_loan 31 500 "[(31, 500), (- 3, 20)]" 0]
  note b = day_count_conventions [of 2 two_payment_loan 31 500 "[(31, 500), (- 3, 20)]" 0]
  have ha: "closing_balance ?L ! 0 = 1000" "opening_balance ?L ! 1 = closing_balance ?L ! 0"
    "interest_payments ?L ! 1 = opening_balance ?L ! 1 * ((1 + 5 / 100) powr (14 / 365.25) - 1)"
    "closing_balance ?L ! 1 = opening_balance ?L ! 1 - (500 - interest_payments ?L ! 1)"
    "compute_pv_of_cashflows [(31, 500), (- 3, 20)] (Fin (5 / 100)) 0 =
       Fin (500 / (1 + 5 / 100) powr (31 / 365))"
    "(1 + 5 / 100) powr (31 / 365.25) \<noteq> ((1 + 5 / 100) powr (31 / 365) :: real)"
    using a by (simp_all add: two_payment_loan_def fl_sum_def)
  have hb: "opening_balance ?L ! 2 = closing_balance ?L ! 1"
    "interest_payments ?L ! 2 = opening_balance ?L ! 2 * ((1 + 5 / 100) powr (31 / 365.25) - 1)"
    using b by (simp_all add: two_payment_loan_def)
  show ?thesis
    unfolding hb ha(4) ha(3) ha(2) ha(1) using ha(5,6) by simp
qed

end
